theory Spec2Isabelle
  imports Complex_Main "HOL-Library.Char_ord" "HOL-Library.List_Lexorder"
begin

section \<open>Alert escalation tracker (scripts/utilities/sla\_alert\_tracker.py)\<close>

text \<open>
  A violation is the dictionary handed to \<open>should_alert_violation\<close> and
  \<open>record_alert\<close>.  The keys \<open>item_id\<close> and \<open>type\<close> are read with
  \<open>violation[...]\<close>, the key \<open>escalation_level\<close> with \<open>.get(..., 1)\<close>, so it
  is optional.
\<close>

record violation =
  item_id :: string
  vtype :: string
  escalation_level :: "int option"

text \<open>
  One row of the table \<open>sla_alerts\<close>.  The primary key \<open>violation_id\<close> is the key
  of the map that models the table.  \<open>last_alerted_at\<close> is the ISO text of a
  \<open>datetime\<close>; a datetime has microsecond resolution and the text round-trips through
  \<open>isoformat\<close>/\<open>fromisoformat\<close>, so it is kept as a count of microseconds.
\<close>

record sla_alert =
  a_item_id :: string
  a_violation_type :: string
  last_alerted_at :: int
  alert_count :: int
  current_escalation_level :: int
  slack_thread_ts :: "string option"

type_synonym sla_alerts = "string \<rightharpoonup> sla_alert"

definition violation_id :: "violation \<Rightarrow> string" where
  "violation_id v = item_id v @ ''_'' @ vtype v"

definition current_escalation :: "violation \<Rightarrow> int" where
  "current_escalation v = (case escalation_level v of None \<Rightarrow> 1 | Some l \<Rightarrow> l)"

text \<open>
  \<open>(datetime.now() - last_alerted).total_seconds() / 3600\<close>.  The quotient is
  computed exactly here; the comparison with 24 that the source makes in floating point
  has the same outcome, because the nearest double of a microsecond count below
  \<open>86400 * 10^6\<close>, divided by \<open>10^6\<close> and by 3600, stays below 24.
\<close>

definition hours_since_alert :: "int \<Rightarrow> int \<Rightarrow> rat" where
  "hours_since_alert now last_alerted = (of_int (now - last_alerted) / 1000000) / 3600"

definition should_alert_violation :: "sla_alerts \<Rightarrow> int \<Rightarrow> violation \<Rightarrow> bool" where
  "should_alert_violation db now v =
     (case db (violation_id v) of
        None \<Rightarrow> True
      | Some result \<Rightarrow>
          if current_escalation v > current_escalation_level result then True
          else if hours_since_alert now (last_alerted_at result) \<ge> 24 then True
          else False)"

definition record_alert :: "sla_alerts \<Rightarrow> int \<Rightarrow> violation \<Rightarrow> string option \<Rightarrow> sla_alerts" where
  "record_alert db now v thread_ts =
     (case db (violation_id v) of
        Some result \<Rightarrow>
          db(violation_id v \<mapsto> result
               \<lparr> last_alerted_at := now,
                 alert_count := alert_count result + 1,
                 current_escalation_level := current_escalation v,
                 slack_thread_ts := (case thread_ts of None \<Rightarrow> slack_thread_ts result
                                     | Some t \<Rightarrow> Some t) \<rparr>)
      | None \<Rightarrow>
          db(violation_id v \<mapsto>
               \<lparr> a_item_id = item_id v, a_violation_type = vtype v,
                 last_alerted_at = now, alert_count = 1,
                 current_escalation_level = current_escalation v,
                 slack_thread_ts = thread_ts \<rparr>))"

text \<open>The violation of the specification's cooldown scenario.\<close>

definition pr114 :: "int \<Rightarrow> violation" where
  "pr114 l = \<lparr> item_id = ''PR-114'', vtype = ''pr_stale'', escalation_level = Some l \<rparr>"

definition day_us :: int where
  "day_us = 24 * 3600 * 1000000"

text \<open>A recorded level-3 alert on the scenario's violation, with a thread reference.\<close>

definition escalated_db :: sla_alerts where
  "escalated_db = record_alert Map.empty 0 (pr114 3) (Some ''1234567890.123456'')"

section \<open>Approval workflow store (src/database/pm\_requests\_db.py)\<close>

text \<open>
  The two tables of \<open>PMRequestsDB\<close>, each a list of rows in insertion order (the
  autoincrement \<open>id\<close> is the position).  Texts are strings, timestamps are counts of
  microseconds, nullable columns are options.  \<open>status\<close> is a TEXT column and
  \<open>update_request_status\<close> writes whatever string it is given, so it stays a string.
\<close>

record pm_request =
  request_id :: string
  source :: string
  source_id :: string
  request_type :: string
  user_id :: string
  user_name :: string
  original_context :: string
  draft_content :: string
  status :: string
  jira_ticket_key :: "string option"
  created_at :: int
  updated_at :: int
  approved_at :: "int option"
  created_ticket_at :: "int option"

record revision =
  r_request_id :: string
  revision_number :: int
  r_draft_content :: string
  feedback :: "string option"
  r_created_at :: int

record pm_db =
  requests :: "pm_request list"
  revisions :: "revision list"

datatype db_error = IntegrityError

definition empty_db :: pm_db where
  "empty_db = \<lparr> requests = [], revisions = [] \<rparr>"

text \<open>
  \<open>create_request\<close>.  \<open>uuid\<close> is the value of \<open>str(uuid.uuid4())\<close> and \<open>now\<close> the
  CURRENT\_TIMESTAMP default.  The column \<open>request_id\<close> is UNIQUE, so the first INSERT
  raises on an id the table already holds, before anything is written.
\<close>

definition create_request ::
  "pm_db \<Rightarrow> string \<Rightarrow> int \<Rightarrow> string \<Rightarrow> string \<Rightarrow> string \<Rightarrow> string \<Rightarrow> string \<Rightarrow> string \<Rightarrow> string
     \<Rightarrow> db_error + (string \<times> pm_db)" where
  "create_request db uuid now src src_id rtype uid uname ctx draft =
     (if uuid \<in> request_id ` set (requests db) then Inl IntegrityError
      else Inr (uuid,
        db \<lparr> requests := requests db @
                [\<lparr> request_id = uuid, source = src, source_id = src_id, request_type = rtype,
                   user_id = uid, user_name = uname, original_context = ctx,
                   draft_content = draft, status = ''pending'', jira_ticket_key = None,
                   created_at = now, updated_at = now, approved_at = None,
                   created_ticket_at = None \<rparr>],
             revisions := revisions db @
                [\<lparr> r_request_id = uuid, revision_number = 1, r_draft_content = draft,
                   feedback = None, r_created_at = now \<rparr>] \<rparr>))"

definition get_request :: "pm_db \<Rightarrow> string \<Rightarrow> pm_request option" where
  "get_request db rid = find (\<lambda>r. request_id r = rid) (requests db)"

text \<open>An UPDATE with \<open>WHERE request_id = ?\<close>: the changed table and the row count.\<close>

definition update_where ::
  "string \<Rightarrow> (pm_request \<Rightarrow> pm_request) \<Rightarrow> pm_request list \<Rightarrow> pm_request list \<times> nat" where
  "update_where rid f rows =
     (map (\<lambda>r. if request_id r = rid then f r else r) rows,
      length (filter (\<lambda>r. request_id r = rid) rows))"

text \<open>Python's truth value of an \<open>Optional[str]\<close>.\<close>

definition truthy :: "string option \<Rightarrow> bool" where
  "truthy s = (case s of None \<Rightarrow> False | Some t \<Rightarrow> t \<noteq> [])"

definition update_request_status ::
  "pm_db \<Rightarrow> int \<Rightarrow> string \<Rightarrow> string \<Rightarrow> string option \<Rightarrow> bool \<times> pm_db" where
  "update_request_status db now rid st key =
     (let (rows, rowcount) =
        (if st = ''approved'' then
           update_where rid
             (\<lambda>r. r \<lparr> status := st, updated_at := now, approved_at := Some now \<rparr>) (requests db)
         else if st = ''created'' \<and> truthy key then
           update_where rid
             (\<lambda>r. r \<lparr> status := st, updated_at := now, created_ticket_at := Some now,
                      jira_ticket_key := key \<rparr>) (requests db)
         else
           update_where rid (\<lambda>r. r \<lparr> status := st, updated_at := now \<rparr>) (requests db))
      in (rowcount > 0, db \<lparr> requests := rows \<rparr>))"

text \<open>\<open>SELECT MAX(revision_number)\<close>: NULL over no rows.\<close>

definition sql_max :: "int list \<Rightarrow> int option" where
  "sql_max xs = (case xs of [] \<Rightarrow> None | x # ys \<Rightarrow> Some (fold max ys x))"

definition revision_numbers :: "pm_db \<Rightarrow> string \<Rightarrow> int list" where
  "revision_numbers db rid =
     map revision_number (filter (\<lambda>r. r_request_id r = rid) (revisions db))"

text \<open>\<open>cursor.fetchone()['max_rev'] or 0\<close>: NULL and 0 both give 0.\<close>

definition max_rev :: "pm_db \<Rightarrow> string \<Rightarrow> int" where
  "max_rev db rid =
     (case sql_max (revision_numbers db rid) of None \<Rightarrow> 0
      | Some m \<Rightarrow> if m = 0 then 0 else m)"

definition add_revision ::
  "pm_db \<Rightarrow> int \<Rightarrow> string \<Rightarrow> string \<Rightarrow> string option \<Rightarrow> int \<times> pm_db" where
  "add_revision db now rid draft fb =
     (let new_rev = max_rev db rid + 1;
          revs = revisions db @
            [\<lparr> r_request_id = rid, revision_number = new_rev, r_draft_content = draft,
               feedback = fb, r_created_at = now \<rparr>];
          (rows, rowcount) =
            update_where rid
              (\<lambda>r. r \<lparr> draft_content := draft, status := ''pending'', updated_at := now \<rparr>)
              (requests db)
      in (new_rev, db \<lparr> requests := rows, revisions := revs \<rparr>))"

definition get_revisions :: "pm_db \<Rightarrow> string \<Rightarrow> revision list" where
  "get_revisions db rid =
     sort_key revision_number (filter (\<lambda>r. r_request_id r = rid) (revisions db))"

text \<open>
  The states of the store that its operations produce from the empty database.  The id
  that \<open>uuid4\<close> draws is taken to be new: no row of either table carries it.
\<close>

inductive reachable :: "pm_db \<Rightarrow> bool" where
  reach_empty: "reachable empty_db"
| reach_create:
    "reachable db \<Longrightarrow> uuid \<notin> r_request_id ` set (revisions db) \<Longrightarrow>
     create_request db uuid now src src_id rtype uid uname ctx draft = Inr (rid, db') \<Longrightarrow>
     reachable db'"
| reach_status:
    "reachable db \<Longrightarrow> update_request_status db now rid st key = (ok, db') \<Longrightarrow> reachable db'"
| reach_revision:
    "reachable db \<Longrightarrow> add_revision db now rid draft fb = (n, db') \<Longrightarrow> reachable db'"

text \<open>A request is created, cancelled, and then approved or revised.\<close>

definition db_created :: pm_db where
  "db_created =
     (case create_request empty_db ''u1'' 10 ''jira'' ''ECD-1'' ''bug'' ''acc'' ''Ann''
             ''please create a bug'' ''# Bug draft'' of
        Inr (rid, db) \<Rightarrow> db | Inl e \<Rightarrow> empty_db)"

definition db_cancelled :: pm_db where
  "db_cancelled = snd (update_request_status db_created 20 ''u1'' ''cancelled'' None)"

definition db_two_revisions :: pm_db where
  "db_two_revisions = snd (add_revision db_created 20 ''u1'' ''# Bug draft 2'' (Some ''shorter''))"

text \<open>The revision numbers of a request, in insertion order, are 1, 2, ..., n.\<close>

definition gap_free :: "pm_db \<Rightarrow> string \<Rightarrow> bool" where
  "gap_free db rid = (revision_numbers db rid = [1..int (length (revision_numbers db rid))])"

section \<open>Text (Python \<open>str\<close>)\<close>

text \<open>
  A Python text is modelled as the list of its characters, and a character as a code
  point from 0 to 255 (ASCII and the Latin-1 supplement).  Texts with characters beyond
  255 are outside this type.  The three tables below are those of \<open>str.lower\<close>,
  \<open>str.isspace\<close> and \<open>str.isalnum\<close> on these 256 code points.
\<close>

definition code :: "char \<Rightarrow> nat" where
  "code c = of_char c"

text \<open>The characters that \<open>str.lower\<close> changes: A to Z, and the capital letters from
  192 to 222 but for the multiplication sign 215.  Each moves up by 32.\<close>

definition is_upper :: "char \<Rightarrow> bool" where
  "is_upper c = ((65 \<le> code c \<and> code c \<le> 90)
                 \<or> (192 \<le> code c \<and> code c \<le> 222 \<and> code c \<noteq> 215))"

definition lower_char :: "char \<Rightarrow> char" where
  "lower_char c = (if is_upper c then char_of (code c + 32) else c)"


text \<open>\<open>str.isspace\<close>: tab, line feed, vertical tab, form feed, carriage return, the four
  separators 28 to 31, the space, the next-line control 133 and the no-break space 160.
  \<open>str.strip\<close> and the class \<open>\s\<close> of \<open>re\<close> use the same set.\<close>

definition is_space :: "char \<Rightarrow> bool" where
  "is_space c = ((9 \<le> code c \<and> code c \<le> 13) \<or> (28 \<le> code c \<and> code c \<le> 32)
                 \<or> code c = 133 \<or> code c = 160)"

text \<open>The class \<open>\w\<close> of \<open>re\<close>: the underscore and what \<open>str.isalnum\<close> accepts, that is
  the digits, the letters of ASCII, the ordinal indicators 170 and 186, the superscript
  digits 178, 179 and 185, the micro sign 181, the fractions 188 to 190, and the letters
  from 192 to 255 but for the multiplication sign 215 and the division sign 247.\<close>

definition is_word :: "char \<Rightarrow> bool" where
  "is_word c = ((48 \<le> code c \<and> code c \<le> 57) \<or> (65 \<le> code c \<and> code c \<le> 90)
                \<or> code c = 95 \<or> (97 \<le> code c \<and> code c \<le> 122)
                \<or> code c = 170 \<or> code c = 178 \<or> code c = 179 \<or> code c = 181
                \<or> code c = 185 \<or> code c = 186 \<or> (188 \<le> code c \<and> code c \<le> 190)
                \<or> (192 \<le> code c \<and> code c \<le> 214) \<or> (216 \<le> code c \<and> code c \<le> 246)
                \<or> (248 \<le> code c \<and> code c \<le> 255))"

definition lstrip :: "string \<Rightarrow> string" where
  "lstrip s = dropWhile is_space s"

definition rstrip :: "string \<Rightarrow> string" where
  "rstrip s = rev (dropWhile is_space (rev s))"

definition strip :: "string \<Rightarrow> string" where
  "strip s = rstrip (lstrip s)"



section \<open>Conflict clauses of SQLite\<close>

text \<open>
  An INSERT into a table with a primary key.  A plain INSERT raises on a key the table
  holds; OR IGNORE leaves the table as it is; OR REPLACE deletes the rows with that key
  and inserts the new row.
\<close>

datatype on_conflict = Abort | Ignore | Replace

definition sql_insert ::
  "on_conflict \<Rightarrow> ('r \<Rightarrow> 'k) \<Rightarrow> 'r \<Rightarrow> 'r list \<Rightarrow> db_error + 'r list" where
  "sql_insert policy key row tbl =
     (if key row \<in> key ` set tbl then
        (case policy of
           Abort \<Rightarrow> Inl IntegrityError
         | Ignore \<Rightarrow> Inr tbl
         | Replace \<Rightarrow> Inr (filter (\<lambda>r. key r \<noteq> key row) tbl @ [row]))
      else Inr (tbl @ [row]))"

section \<open>Issue-tracker connector (src/monitors/jira\_monitor.py)\<close>

text \<open>The ledger \<open>processed_mentions\<close>, primary key (issue key, comment id), and the
  single row of \<open>last_check\<close>.\<close>

record processed_mention =
  pm_issue_key :: string
  pm_comment_id :: string
  pm_processed_at :: int

record jira_db =
  processed_mentions :: "processed_mention list"
  last_check :: "int option"

definition pm_key :: "processed_mention \<Rightarrow> string \<times> string" where
  "pm_key r = (pm_issue_key r, pm_comment_id r)"

definition jira_is_processed :: "jira_db \<Rightarrow> string \<Rightarrow> string \<Rightarrow> bool" where
  "jira_is_processed db issue_key comment_id =
     (find (\<lambda>r. pm_issue_key r = issue_key \<and> pm_comment_id r = comment_id)
        (processed_mentions db) \<noteq> None)"

text \<open>\<open>JiraMonitor.mark_processed\<close>: INSERT OR IGNORE; \<open>now\<close> is CURRENT\_TIMESTAMP.\<close>

definition jira_mark_processed :: "jira_db \<Rightarrow> int \<Rightarrow> string \<Rightarrow> string \<Rightarrow> db_error + jira_db" where
  "jira_mark_processed db now issue_key comment_id =
     (case sql_insert Ignore pm_key
             \<lparr> pm_issue_key = issue_key, pm_comment_id = comment_id, pm_processed_at = now \<rparr>
             (processed_mentions db) of
        Inl e \<Rightarrow> Inl e
      | Inr rows \<Rightarrow> Inr (db \<lparr> processed_mentions := rows \<rparr>))"





fun join :: "string \<Rightarrow> string list \<Rightarrow> string" where
  "join sep [] = []"
| "join sep [x] = x"
| "join sep (x # y # ys) = x @ sep @ join sep (y # ys)"












record issue_context =
  ic_summary :: string
  ic_description :: string
  ic_comments :: "string list"


















definition empty_jira_db :: jira_db where
  "empty_jira_db = \<lparr> processed_mentions = [], last_check = None \<rparr>"


section \<open>Chat connector (src/monitors/slack\_monitor.py)\<close>

text \<open>
  The two tables the connector polls with: \<open>processed_messages\<close> (primary key \<open>ts\<close>)
  and \<open>tracked_threads\<close> (primary key \<open>thread_ts\<close>).  Message timestamps are the
  texts the platform sends; columns that \<open>mark_processed\<close> does not fill are NULL.
  Times of the clock are rationals (seconds).
\<close>

record processed_message =
  p_ts :: string
  p_channel :: "string option"
  p_user_id :: "string option"
  p_text :: "string option"
  p_response :: "string option"
  p_processed_at :: rat

record tracked_thread =
  tt_thread_ts :: string
  tt_channel :: string
  tt_context :: string
  tt_last_checked_ts :: string
  tt_created_at :: rat

record slack_db =
  processed_messages :: "processed_message list"
  tracked_threads :: "tracked_thread list"

datatype py_error = NameError string | ValueError

record slack_message =
  m_ts :: string
  m_user :: "string option"
  m_bot_id :: "string option"
  m_text :: string
  m_thread_ts :: "string option"

record ctx_message =
  cm_text :: string
  cm_user :: string
  cm_ts :: string

record thread_context =
  tc_parent :: "ctx_message option"
  tc_replies :: "ctx_message list"

record slack_event =
  se_ts :: string
  se_channel :: string
  se_user :: string
  se_text :: string
  se_thread_ts :: "string option"
  se_thread_context :: "thread_context option"
  se_timestamp :: rat

text \<open>The answer of a platform request: the call raised, the body says not ok, or the
  messages of the body.\<close>

datatype api_result = ApiRaised | ApiNotOk | ApiOk "slack_message list"

text \<open>
  What the connector takes from outside: its configuration, Python's \<open>float\<close> on a
  timestamp text (None when it raises ValueError), the answers of
  \<open>conversations.history\<close> (by the \<open>oldest\<close> parameter) and of
  \<open>conversations.replies\<close> (by thread and \<open>oldest\<close>), the thread context that
  \<open>get_thread_context\<close> assembles, and the clock.  Acknowledgements posted while polling
  go to the platform and touch neither the database nor the events; they are left out.
\<close>

record slack_env =
  bot_user_id :: string
  target_channel :: string
  to_float :: "string \<Rightarrow> rat option"
  history :: "rat \<Rightarrow> api_result"
  replies :: "string \<Rightarrow> rat option \<Rightarrow> api_result"
  get_thread_context :: "string \<Rightarrow> thread_context"
  clock :: rat



definition slack_is_processed :: "slack_db \<Rightarrow> string \<Rightarrow> bool" where
  "slack_is_processed db ts = (find (\<lambda>r. p_ts r = ts) (processed_messages db) \<noteq> None)"

text \<open>\<open>SlackMonitor.mark_processed\<close>: INSERT OR REPLACE of (ts, channel, response[:1000]).\<close>

definition slack_mark_processed ::
  "slack_env \<Rightarrow> slack_db \<Rightarrow> string \<Rightarrow> string \<Rightarrow> db_error + slack_db" where
  "slack_mark_processed env db ts response =
     (case sql_insert Replace p_ts
             \<lparr> p_ts = ts, p_channel = Some (target_channel env), p_user_id = None,
               p_text = None, p_response = Some (take 1000 response),
               p_processed_at = clock env \<rparr>
             (processed_messages db) of
        Inl e \<Rightarrow> Inl e
      | Inr rows \<Rightarrow> Inr (db \<lparr> processed_messages := rows \<rparr>))"

definition replace_thread :: "slack_env \<Rightarrow> slack_db \<Rightarrow> string \<Rightarrow> string \<Rightarrow> string \<Rightarrow> slack_db" where
  "replace_thread env db thread_ts context last_checked =
     (case sql_insert Replace tt_thread_ts
             \<lparr> tt_thread_ts = thread_ts, tt_channel = target_channel env, tt_context = context,
               tt_last_checked_ts = last_checked, tt_created_at = clock env \<rparr>
             (tracked_threads db) of
        Inl e \<Rightarrow> db
      | Inr rows \<Rightarrow> db \<lparr> tracked_threads := rows \<rparr>)"

definition register_thread :: "slack_env \<Rightarrow> slack_db \<Rightarrow> string \<Rightarrow> string \<Rightarrow> slack_db" where
  "register_thread env db thread_ts context = replace_thread env db thread_ts context ''0''"









definition oldest :: "slack_env \<Rightarrow> rat \<Rightarrow> rat" where
  "oldest env last_ts =
     (let one_hour_ago = clock env - 1 * 3600;
          twenty_four_hours_ago = clock env - 24 * 3600 in
      if last_ts = 0 then twenty_four_hours_ago
      else if last_ts < twenty_four_hours_ago then twenty_four_hours_ago
      else if last_ts < one_hour_ago then last_ts
      else last_ts)"


section \<open>The generic handler (\<open>SlackMonitor.process_with_claude\<close>)\<close>

text \<open>
  Name lookup.  A name is looked up among the locals of the running function, then among
  the globals of the module, then among the builtins; NameError is raised when none of
  them binds it.  The globals of
  \<open>slack_monitor.py\<close> are its imports and its one class; the builtins listed are those
  the module refers to (Python has no builtin called \<open>channel_name\<close>).  A binding carries a
  printable form of its value.
\<close>

definition slack_monitor_globals :: "(string \<times> string) list" where
  "slack_monitor_globals =
     [(''os'', ''<module os>''), (''sqlite3'', ''<module sqlite3>''),
      (''subprocess'', ''<module subprocess>''), (''time'', ''<module time>''),
      (''datetime'', ''<class datetime>''), (''Path'', ''<class Path>''),
      (''List'', ''typing.List''), (''Dict'', ''typing.Dict''), (''Any'', ''typing.Any''),
      (''Optional'', ''typing.Optional''), (''requests'', ''<module requests>''),
      (''SlackMonitor'', ''<class SlackMonitor>'')]"

definition python_builtins :: "(string \<times> string) list" where
  "python_builtins =
     [(''print'', ''<built-in function print>''), (''len'', ''<built-in function len>''),
      (''all'', ''<built-in function all>''), (''int'', ''<class int>''),
      (''float'', ''<class float>''), (''str'', ''<class str>''), (''set'', ''<class set>''),
      (''range'', ''<class range>''), (''enumerate'', ''<class enumerate>''),
      (''Exception'', ''<class Exception>''), (''ValueError'', ''<class ValueError>'')]"

definition load_name :: "(string \<times> string) list \<Rightarrow> string \<Rightarrow> py_error + string" where
  "load_name locals name =
     (case map_of locals name of
        Some v \<Rightarrow> Inr v
      | None \<Rightarrow>
          (case map_of slack_monitor_globals name of
             Some v \<Rightarrow> Inr v
           | None \<Rightarrow>
               (case map_of python_builtins name of
                  Some v \<Rightarrow> Inr v
                | None \<Rightarrow> Inl (NameError name))))"

text \<open>Decimal text of a number, for \<open>f"[Reply {i+1}]"\<close>.\<close>

fun str_nat :: "nat \<Rightarrow> string" where
  "str_nat n =
     (if n < 10 then [char_of (48 + n)] else str_nat (n div 10) @ [char_of (48 + n mod 10)])"

fun reply_parts :: "nat \<Rightarrow> ctx_message list \<Rightarrow> string list" where
  "reply_parts i [] = []"
| "reply_parts i (reply # rest) =
     (''[Reply '' @ str_nat (i + 1) @ '']: '' @ cm_text reply) # reply_parts (i + 1) rest"

text \<open>The text shown as the conversation thread, as computed before the prompt.\<close>

definition context_display :: "slack_event \<Rightarrow> string option \<Rightarrow> string" where
  "context_display event full_context =
     (let text = (if truthy full_context then the full_context else se_text event) in
      if truthy full_context \<and> full_context \<noteq> Some text then the full_context
      else
        (case se_thread_context event of
           Some thread_ctx \<Rightarrow>
             (let context_parts =
                    (case tc_parent thread_ctx of
                       Some parent \<Rightarrow> [''[THREAD START]: '' @ cm_text parent]
                     | None \<Rightarrow> [])
                    @ reply_parts 0 (tc_replies thread_ctx)
              in if context_parts \<noteq> [] then join [CHR 0x0A] context_parts else text)
         | None \<Rightarrow> text))"

text \<open>
  The prompt is an f-string whose replacement fields are evaluated from left to right:
  \<open>user\<close>, then \<open>channel_name if channel_name else "workspace"\<close>, then the formatted
  time, then \<open>context_display\<close>.  The long fixed instructions of the prompt are
  abbreviated.
\<close>

definition build_prompt :: "(string \<times> string) list \<Rightarrow> string \<Rightarrow> py_error + string" where
  "build_prompt locals time_text =
     (case load_name locals ''user'' of
        Inl e \<Rightarrow> Inl e
      | Inr user \<Rightarrow>
     (case load_name locals ''channel_name'' of
        Inl e \<Rightarrow> Inl e
      | Inr channel_name \<Rightarrow>
     (case load_name locals ''context_display'' of
        Inl e \<Rightarrow> Inl e
      | Inr display \<Rightarrow>
          Inr (''SLACK MESSAGE CONTEXT: - User: '' @ user
               @ '' - Channel: '' @ (if channel_name \<noteq> [] then channel_name else ''workspace'')
               @ '' - Time: '' @ time_text
               @ '' FULL CONVERSATION THREAD: '' @ display
               @ '' MANDATORY ACTION-FIRST WORKFLOW: ...''))))"

text \<open>The outcome of \<open>subprocess.run\<close> with a timeout: the process ended with a return
  code, standard output and standard error, or the timeout expired.\<close>

datatype proc_result = Completed int string string | TimeoutExpired

text \<open>
  The retry loop \<open>for attempt in range(max_retries)\<close>; \<open>run attempt prompt\<close> is the
  outcome of the call of the reasoning service in that attempt.  None is the end of the
  loop without a \<open>return\<close>.
\<close>

fun claude_attempts ::
  "(nat \<Rightarrow> string \<Rightarrow> proc_result) \<Rightarrow> string \<Rightarrow> nat \<Rightarrow> nat \<Rightarrow> nat \<Rightarrow> string option" where
  "claude_attempts run prompt max_retries attempt 0 = None"
| "claude_attempts run prompt max_retries attempt (Suc remaining) =
     (case run attempt prompt of
        Completed returncode out err \<Rightarrow>
          if returncode = 0 then
            (let response = strip out in
             if response \<noteq> [] then Some response
             else Some ''I processed your request but didn't generate a response.'')
          else if attempt < max_retries - 1 then
            claude_attempts run prompt max_retries (attempt + 1) remaining
          else Some ''Sorry, I encountered an error processing your request. Please try rephrasing.''
      | TimeoutExpired \<Rightarrow>
          if attempt < max_retries - 1 then
            claude_attempts run prompt max_retries (attempt + 1) remaining
          else Some ''Your request is taking longer than expected ...'')"

text \<open>The locals are the parameters and the names the body has assigned when the
  prompt is built.\<close>

definition process_with_claude ::
  "(nat \<Rightarrow> string \<Rightarrow> proc_result) \<Rightarrow> string \<Rightarrow> slack_event \<Rightarrow> string option
     \<Rightarrow> py_error + string option" where
  "process_with_claude run time_text event full_context =
     (let user = se_user event;
          text = (if truthy full_context then the full_context else se_text event);
          locals = [(''self'', ''<SlackMonitor>''), (''event'', ''<dict>''),
                    (''full_context'', (case full_context of None \<Rightarrow> ''None'' | Some c \<Rightarrow> c)),
                    (''user'', user), (''text'', text),
                    (''context_display'', context_display event full_context)]
      in case build_prompt locals time_text of
           Inl e \<Rightarrow> Inl e
         | Inr prompt \<Rightarrow> Inr (claude_attempts run prompt 2 0 2))"

text \<open>
  The generic branch of the polling loop (\<open>PMAgentService.start_slack_polling\<close>, the
  final \<open>else\<close>).  \<open>send\<close> is \<open>send_response\<close>, which answers whether the post was
  accepted.  The result is the database and the posts made.  Any exception is caught by
  the \<open>except\<close> of the loop body, which only logs it.
\<close>

definition generic_branch ::
  "slack_env \<Rightarrow> (nat \<Rightarrow> string \<Rightarrow> proc_result) \<Rightarrow> (string option \<Rightarrow> string \<Rightarrow> bool) \<Rightarrow> string
     \<Rightarrow> slack_db \<Rightarrow> slack_event \<Rightarrow> string \<Rightarrow> slack_db \<times> (string option \<times> string) list" where
  "generic_branch env run send time_text db event full_context =
     (case process_with_claude run time_text event (Some full_context) of
        Inl e \<Rightarrow> (db, [])
      | Inr response \<Rightarrow>
          (let thread_ts = (if truthy (se_thread_ts event) then the (se_thread_ts event)
                            else se_ts event);
               success = send response thread_ts in
           if success then
             (case response of
                None \<Rightarrow> (db, [(response, thread_ts)])
              | Some text \<Rightarrow>
                  (case slack_mark_processed env db (se_ts event) (take 100 text) of
                     Inl e \<Rightarrow> (db, [(response, thread_ts)])
                   | Inr db' \<Rightarrow>
                       (register_thread env db' thread_ts
                          (''Generic request from '' @ se_user event),
                        [(response, thread_ts)])))
           else (db, [(response, thread_ts)])))"


text \<open>A channel with one message that mentions the bot, polled on an empty database.\<close>

definition empty_slack_db :: slack_db where
  "empty_slack_db = \<lparr> processed_messages = [], tracked_threads = [] \<rparr>"

definition mention_message :: slack_message where
  "mention_message =
     \<lparr> m_ts = ''1700000000.000100'', m_user = Some ''U1'', m_bot_id = None,
       m_text = ''<@UBOT> what is the status of ECD-1?'', m_thread_ts = None \<rparr>"

definition slack_env0 :: slack_env where
  "slack_env0 =
     \<lparr> bot_user_id = ''UBOT'', target_channel = ''C1'',
       to_float = map_of [(''1700000000.000100'', 17000000000001 / 10000)],
       history = (\<lambda>oldest. ApiOk [mention_message]),
       replies = (\<lambda>thread_ts oldest. ApiOk []),
       get_thread_context = (\<lambda>thread_ts. \<lparr> tc_parent = None, tc_replies = [] \<rparr>),
       clock = 1700000100 \<rparr>"


section \<open>Approval-response parser (\<open>ClaudeCodeOrchestrator.parse_approval_response\<close>)\<close>

text \<open>
  The comments the parser reads are texts over the 256 characters above and the two
  glyphs its patterns name, the check mark U+2705 and the cross mark U+274C.  Both glyphs
  are left alone by \<open>str.lower\<close>, are neither white space nor word characters, and are
  equal only to themselves under IGNORECASE.
\<close>

datatype sym = Ch char | CheckMark | CrossMark

fun sym_lower :: "sym \<Rightarrow> sym" where
  "sym_lower (Ch c) = Ch (lower_char c)"
| "sym_lower CheckMark = CheckMark"
| "sym_lower CrossMark = CrossMark"

fun sym_space :: "sym \<Rightarrow> bool" where
  "sym_space (Ch c) = is_space c"
| "sym_space CheckMark = False"
| "sym_space CrossMark = False"

fun sym_word :: "sym \<Rightarrow> bool" where
  "sym_word (Ch c) = is_word c"
| "sym_word CheckMark = False"
| "sym_word CrossMark = False"

text \<open>A text without glyphs.\<close>

definition plain :: "string \<Rightarrow> sym list" where
  "plain s = map Ch s"

text \<open>\<open>str.lower\<close> and \<open>str.strip\<close> on these texts.\<close>

definition text_lower :: "sym list \<Rightarrow> sym list" where
  "text_lower s = map sym_lower s"

definition text_lstrip :: "sym list \<Rightarrow> sym list" where
  "text_lstrip s = dropWhile sym_space s"

definition text_rstrip :: "sym list \<Rightarrow> sym list" where
  "text_rstrip s = rev (dropWhile sym_space (rev s))"

definition text_strip :: "sym list \<Rightarrow> sym list" where
  "text_strip s = text_rstrip (text_lstrip s)"

text \<open>
  The regular expressions of the parser use literal characters, an optional character
  (\<open>d?\<close>), the word boundary \<open>\b\<close>, \<open>\s*\<close>, \<open>\s+\<close> and the group \<open>(.+)\<close>.
  \<open>AnyStar\<close> is not written in a pattern: it is the rest of the group \<open>(.+)\<close> once its
  first character is taken.
\<close>

datatype rx = Lit sym | Opt sym | WordB | Spaces0 | Spaces1 | AnyPlus | AnyStar

definition lits :: "sym list \<Rightarrow> rx list" where
  "lits s = map Lit s"

text \<open>A literal character of a pattern against a character of the text; under the
  flag IGNORECASE two characters are equal when their lower-case forms are.\<close>

definition char_eq :: "bool \<Rightarrow> sym \<Rightarrow> sym \<Rightarrow> bool" where
  "char_eq ignorecase c x = (if ignorecase then sym_lower c = sym_lower x else c = x)"

text \<open>The dot: any character under DOTALL, any character but the line feed otherwise.\<close>

definition dot :: "bool \<Rightarrow> sym \<Rightarrow> bool" where
  "dot dotall x = (dotall \<or> x \<noteq> Ch (CHR 0x0A))"

text \<open>\<open>\b\<close> between the character before the position (None at the start) and the
  text that follows: exactly one side is a word character.\<close>

definition word_boundary :: "sym option \<Rightarrow> sym list \<Rightarrow> bool" where
  "word_boundary prev s =
     ((case prev of None \<Rightarrow> False | Some c \<Rightarrow> sym_word c)
      \<noteq> (case s of [] \<Rightarrow> False | x # xs \<Rightarrow> sym_word x))"

text \<open>
  \<open>rx_match\<close> matches a pattern at the start of a text, as the backtracking matcher of
  \<open>re\<close> does: greedy repetitions take the longest run first and give characters back
  when the rest of the pattern fails.  The result is None for no match, and otherwise the
  text of group 1 (None when the pattern has no group).
\<close>

fun rx_match ::
  "bool \<Rightarrow> bool \<Rightarrow> rx list \<Rightarrow> sym option \<Rightarrow> sym list \<Rightarrow> sym list option option" where
  "rx_match ic da [] prev s = Some None"
| "rx_match ic da (Lit c # p) prev [] = None"
| "rx_match ic da (Lit c # p) prev (x # xs) =
     (if char_eq ic c x then rx_match ic da p (Some x) xs else None)"
| "rx_match ic da (Opt c # p) prev [] = rx_match ic da p prev []"
| "rx_match ic da (Opt c # p) prev (x # xs) =
     (if char_eq ic c x then
        (case rx_match ic da p (Some x) xs of
           Some r \<Rightarrow> Some r
         | None \<Rightarrow> rx_match ic da p prev (x # xs))
      else rx_match ic da p prev (x # xs))"
| "rx_match ic da (WordB # p) prev s =
     (if word_boundary prev s then rx_match ic da p prev s else None)"
| "rx_match ic da (Spaces0 # p) prev [] = rx_match ic da p prev []"
| "rx_match ic da (Spaces0 # p) prev (x # xs) =
     (if sym_space x then
        (case rx_match ic da (Spaces0 # p) (Some x) xs of
           Some r \<Rightarrow> Some r
         | None \<Rightarrow> rx_match ic da p prev (x # xs))
      else rx_match ic da p prev (x # xs))"
| "rx_match ic da (Spaces1 # p) prev [] = None"
| "rx_match ic da (Spaces1 # p) prev (x # xs) =
     (if sym_space x then rx_match ic da (Spaces0 # p) (Some x) xs else None)"
| "rx_match ic da (AnyPlus # p) prev [] = None"
| "rx_match ic da (AnyPlus # p) prev (x # xs) =
     (if dot da x then
        (case rx_match ic da (AnyStar # p) (Some x) xs of
           Some (Some g) \<Rightarrow> Some (Some (x # g))
         | _ \<Rightarrow> None)
      else None)"
| "rx_match ic da (AnyStar # p) prev [] =
     (case rx_match ic da p prev [] of Some r \<Rightarrow> Some (Some []) | None \<Rightarrow> None)"
| "rx_match ic da (AnyStar # p) prev (x # xs) =
     (case (if dot da x then rx_match ic da (AnyStar # p) (Some x) xs else None) of
        Some (Some g) \<Rightarrow> Some (Some (x # g))
      | _ \<Rightarrow> (case rx_match ic da p prev (x # xs) of
                Some r \<Rightarrow> Some (Some [])
              | None \<Rightarrow> None))"

text \<open>\<open>re.search\<close>: the match at the leftmost position that has one.\<close>

fun rx_search_from ::
  "bool \<Rightarrow> bool \<Rightarrow> rx list \<Rightarrow> sym option \<Rightarrow> sym list \<Rightarrow> sym list option option" where
  "rx_search_from ic da p prev [] = rx_match ic da p prev []"
| "rx_search_from ic da p prev (x # xs) =
     (case rx_match ic da p prev (x # xs) of
        Some r \<Rightarrow> Some r
      | None \<Rightarrow> rx_search_from ic da p (Some x) xs)"

definition rx_search ::
  "bool \<Rightarrow> bool \<Rightarrow> rx list \<Rightarrow> sym list \<Rightarrow> sym list option option" where
  "rx_search ic da p s = rx_search_from ic da p None s"

definition approval_patterns :: "rx list list" where
  "approval_patterns =
     [WordB # lits (plain ''approve'') @ [Opt (Ch (CHR ''d'')), WordB],
      WordB # lits (plain ''approve'') @ [WordB],
      WordB # lits (plain ''looks good'') @ [WordB],
      WordB # lits (plain ''go ahead'') @ [WordB],
      [Lit CheckMark]]"

definition change_patterns :: "rx list list" where
  "change_patterns =
     [lits (plain ''change'') @ [Opt (Ch (CHR ''s''))] @ lits (plain '':'') @ [Spaces0, AnyPlus],
      lits (plain ''revis'') @ [Opt (Ch (CHR ''e''))] @ lits (plain '':'') @ [Spaces0, AnyPlus],
      lits (plain ''update:'') @ [Spaces0, AnyPlus],
      lits (plain ''modify:'') @ [Spaces0, AnyPlus],
      lits (plain ''please change'') @ [Spaces1, AnyPlus]]"

definition cancel_patterns :: "rx list list" where
  "cancel_patterns =
     [WordB # lits (plain ''cancel'') @ [WordB],
      WordB # lits (plain ''discard'') @ [WordB],
      WordB # lits (plain ''never mind'') @ [WordB],
      WordB # lits (plain ''don'') @ [Opt (Ch (CHR 0x27))] @ lits (plain ''t create'') @ [WordB],
      [Lit CrossMark]]"

record approval_response =
  response_type :: "string option"
  feedback_text :: "sym list option"
  confidence :: rat

text \<open>The first pattern of a list that matches, with its group 1.\<close>

fun first_match ::
  "bool \<Rightarrow> bool \<Rightarrow> rx list list \<Rightarrow> sym list \<Rightarrow> sym list option option" where
  "first_match ic da [] s = None"
| "first_match ic da (pattern # patterns) s =
     (case rx_search ic da pattern s of
        Some r \<Rightarrow> Some r
      | None \<Rightarrow> first_match ic da patterns s)"

text \<open>
  \<open>parse_approval_response\<close>.  The approval and cancel patterns are searched without
  flags, the change patterns with IGNORECASE and DOTALL, all of them in the lower-cased
  and trimmed comment.
\<close>

definition parse_approval_response :: "sym list \<Rightarrow> approval_response" where
  "parse_approval_response comment_text =
     (let comment_lower = text_strip (text_lower comment_text) in
      if first_match False False approval_patterns comment_lower \<noteq> None then
        \<lparr> response_type = Some ''approved'', feedback_text = None, confidence = 9 / 10 \<rparr>
      else
        (case first_match True True change_patterns comment_lower of
           Some g \<Rightarrow>
             \<lparr> response_type = Some ''changes'',
               feedback_text = Some (text_strip (case g of None \<Rightarrow> [] | Some t \<Rightarrow> t)),
               confidence = 9 / 10 \<rparr>
         | None \<Rightarrow>
             if first_match False False cancel_patterns comment_lower \<noteq> None then
               \<lparr> response_type = Some ''cancel'', feedback_text = None, confidence = 9 / 10 \<rparr>
             else
               \<lparr> response_type = None, feedback_text = None, confidence = 0 \<rparr>))"

text \<open>A word or phrase stands as a whole word in a text: the character before it, if
  any, and the character after it, if any, are not word characters.\<close>

definition whole_word_in :: "sym list \<Rightarrow> sym list \<Rightarrow> bool" where
  "whole_word_in w s =
     (\<exists>pre post. s = pre @ w @ post
        \<and> (pre = [] \<or> \<not> sym_word (last pre)) \<and> (post = [] \<or> \<not> sym_word (hd post)))"

definition approval_words :: "sym list list" where
  "approval_words = map plain [''approve'', ''approved'', ''looks good'', ''go ahead'']"


section \<open>Theorems: alert escalation tracker\<close>

lemma hours_since_alert_ge_24:
  "(hours_since_alert now l \<ge> 24) = (now - l \<ge> day_us)"
proof -
  have "(hours_since_alert now l \<ge> 24) = ((of_int (now - l) :: rat) \<ge> of_int day_us)"
    by (simp add: hours_since_alert_def day_us_def field_simps)
  then show ?thesis by (simp only: of_int_le_iff)
qed

text \<open>
  C4.  \<open>should_alert_violation\<close> answers true exactly when the table has no record
  under the violation id (the item id, an underscore and the violation type), or the
  incoming escalation level (1 when the violation carries none) is strictly greater than
  the recorded one, whatever the elapsed time, or at least 24 hours (counted in
  microseconds) have elapsed since the recorded \<open>last_alerted_at\<close>; otherwise it
  answers false.
\<close>

theorem should_alert_violation_iff:
  "should_alert_violation db now v =
     (db (item_id v @ ''_'' @ vtype v) = None
      \<or> (\<exists>r. db (item_id v @ ''_'' @ vtype v) = Some r
             \<and> ((case escalation_level v of None \<Rightarrow> 1 | Some l \<Rightarrow> l)
                    > current_escalation_level r
                  \<or> now - last_alerted_at r \<ge> 24 * 3600 * 1000000)))"
  by (auto simp add: should_alert_violation_def violation_id_def current_escalation_def
        hours_since_alert_ge_24 day_us_def split: option.split)

text \<open>
  The cooldown scenario: the first sighting alerts; once recorded, the same violation is
  suppressed; a raised level alerts again at once; after 24 hours the unchanged violation
  alerts again.
\<close>

lemma cooldown_scenario:
  "should_alert_violation Map.empty 0 (pr114 1)
   \<and> \<not> should_alert_violation (record_alert Map.empty 0 (pr114 1) None) 0 (pr114 1)
   \<and> should_alert_violation (record_alert Map.empty 0 (pr114 1) None) 0 (pr114 2)
   \<and> should_alert_violation (record_alert Map.empty 0 (pr114 1) None) day_us (pr114 1)"
  by (simp add: should_alert_violation_def record_alert_def pr114_def violation_id_def
        current_escalation_def hours_since_alert_ge_24 day_us_def)

text \<open>
  C5 (as the code has it).  On a violation that already has a record, \<open>record_alert\<close>
  adds one to \<open>alert_count\<close>, sets \<open>last_alerted_at\<close> to now, sets
  \<open>current_escalation_level\<close> to the incoming level (not to the larger of the two
  levels), replaces the thread reference when one is supplied and keeps the stored one
  otherwise; every other row stays as it was.
\<close>

theorem record_alert_existing:
  assumes "db (violation_id v) = Some r"
  shows "\<exists>r'. record_alert db now v ts (violation_id v) = Some r'
           \<and> alert_count r' = alert_count r + 1
           \<and> last_alerted_at r' = now
           \<and> current_escalation_level r' = current_escalation v
           \<and> slack_thread_ts r' = (case ts of None \<Rightarrow> slack_thread_ts r | Some t \<Rightarrow> Some t)
           \<and> a_item_id r' = a_item_id r \<and> a_violation_type r' = a_violation_type r
           \<and> (\<forall>k. k \<noteq> violation_id v \<longrightarrow> record_alert db now v ts k = db k)"
  using assms by (simp add: record_alert_def)

theorem record_alert_existing_witness:
  "escalated_db (violation_id (pr114 1)) \<noteq> None \<and>
   (\<exists>r'. record_alert escalated_db day_us (pr114 1) None (violation_id (pr114 1)) = Some r'
      \<and> alert_count r' = 2 \<and> last_alerted_at r' = day_us \<and> current_escalation_level r' = 1
      \<and> slack_thread_ts r' = Some ''1234567890.123456'')"
proof -
  have h: "escalated_db (violation_id (pr114 1)) =
             Some \<lparr> a_item_id = ''PR-114'', a_violation_type = ''pr_stale'',
                    last_alerted_at = 0, alert_count = 1, current_escalation_level = 3,
                    slack_thread_ts = Some ''1234567890.123456'' \<rparr>"
    by (simp add: escalated_db_def record_alert_def pr114_def violation_id_def
          current_escalation_def)
  show ?thesis
    using record_alert_existing
            [where db = escalated_db and v = "pr114 1" and now = day_us and ts = None, OF h] h
    by (auto simp add: pr114_def current_escalation_def)
qed

text \<open>
  The claim as written (the stored level becomes the larger of the recorded and the
  incoming level) fails: a level-3 record that is alerted again a day later at level 1
  ends at level 1.
\<close>

theorem record_alert_level_counterexample:
  "current_escalation_level
     (the (record_alert escalated_db day_us (pr114 1) None ''PR-114_pr_stale''))
   \<noteq> max (current_escalation_level (the (escalated_db ''PR-114_pr_stale'')))
          (current_escalation (pr114 1))"
  by (simp add: escalated_db_def record_alert_def pr114_def violation_id_def
        current_escalation_def)

section \<open>Theorems: approval workflow store\<close>

lemma sql_max_upto: "0 < n \<Longrightarrow> sql_max [1..int n] = Some (int n)"
proof (induction n)
  case 0 then show ?case by simp
next
  case (Suc n)
  show ?case
  proof (cases "n = 0")
    case True then show ?thesis by (simp add: sql_max_def upto.simps)
  next
    case False
    then have ih: "sql_max [1..int n] = Some (int n)" using Suc by simp
    have "[1..int (Suc n)] = [1..int n] @ [int n + 1]"
      using upto_rec2 [of 1 "int (Suc n)"] by simp
    moreover obtain x ys where xs: "[1..int n] = x # ys" using False
      by (cases "[1..int n]") auto
    ultimately show ?thesis using ih by (simp add: sql_max_def)
  qed
qed

lemma max_rev_gap_free:
  assumes "gap_free db rid"
  shows "max_rev db rid = int (length (revision_numbers db rid))"
proof (cases "revision_numbers db rid = []")
  case True then show ?thesis by (simp add: max_rev_def sql_max_def)
next
  case False
  then have "0 < length (revision_numbers db rid)" by simp
  from sql_max_upto [OF this] assms show ?thesis
    by (simp add: max_rev_def gap_free_def)
qed

lemma revision_numbers_add:
  "revision_numbers (snd (add_revision db now rid draft fb)) rid' =
     (if rid' = rid then revision_numbers db rid @ [max_rev db rid + 1]
      else revision_numbers db rid')"
  by (simp add: add_revision_def revision_numbers_def Let_def update_where_def)

lemma gap_free_snoc:
  assumes "xs = [1..int (length xs)]"
  shows "xs @ [int (length xs) + 1] = [1..int (Suc (length xs))]"
proof -
  have "[1..int (Suc (length xs))] = [1..int (Suc (length xs)) - 1] @ [int (Suc (length xs))]"
    by (rule upto_rec2) simp
  also have "int (Suc (length xs)) - 1 = int (length xs)" by simp
  finally have "[1..int (Suc (length xs))] = [1..int (length xs)] @ [int (length xs) + 1]"
    by (simp add: add.commute)
  then show ?thesis using assms by simp
qed

lemma gap_free_add:
  assumes "gap_free db rid'"
  shows "gap_free (snd (add_revision db now rid draft fb)) rid'"
proof (cases "rid' = rid")
  case True
  have g: "revision_numbers db rid = [1..int (length (revision_numbers db rid))]"
    using assms True by (simp add: gap_free_def)
  have m: "max_rev db rid = int (length (revision_numbers db rid))"
    using max_rev_gap_free assms True by simp
  have "revision_numbers (snd (add_revision db now rid draft fb)) rid
          = revision_numbers db rid @ [int (length (revision_numbers db rid)) + 1]"
    by (simp add: revision_numbers_add m)
  then show ?thesis using gap_free_snoc [OF g] True
    by (simp add: gap_free_def add.commute)
next
  case False
  then show ?thesis using assms by (simp add: gap_free_def revision_numbers_add)
qed

lemma revision_numbers_status:
  "revision_numbers (snd (update_request_status db now rid st key)) rid' = revision_numbers db rid'"
  by (simp add: update_request_status_def revision_numbers_def Let_def split: prod.split)

lemma revision_numbers_none:
  "rid \<notin> r_request_id ` set (revisions db) \<Longrightarrow> revision_numbers db rid = []"
  by (auto simp add: revision_numbers_def filter_empty_conv)

lemma revision_numbers_create:
  assumes "create_request db uuid now src src_id rtype uid uname ctx draft = Inr (rid, db')"
  shows "rid = uuid \<and> revision_numbers db' rid' =
     (if rid' = uuid then revision_numbers db uuid @ [1] else revision_numbers db rid')"
  using assms by (auto simp add: create_request_def revision_numbers_def split: if_splits)

lemma reachable_gap_free: "reachable db \<Longrightarrow> gap_free db rid"
proof (induction rule: reachable.induct)
  case reach_empty
  show ?case by (simp add: gap_free_def revision_numbers_def empty_db_def)
next
  case (reach_create db uuid now src src_id rtype uid uname ctx draft rid0 db')
  from revision_numbers_create [OF reach_create.hyps(3)]
  have eq: "revision_numbers db' rid =
     (if rid = uuid then revision_numbers db uuid @ [1] else revision_numbers db rid)" by simp
  show ?case
  proof (cases "rid = uuid")
    case True
    then show ?thesis using eq revision_numbers_none [OF reach_create.hyps(2)]
      by (simp add: gap_free_def)
  next
    case False
    then show ?thesis using eq reach_create.IH by (simp add: gap_free_def)
  qed
next
  case (reach_status db now rid0 st key ok db')
  have "db' = snd (update_request_status db now rid0 st key)" using reach_status.hyps(2) by simp
  then show ?case using reach_status.IH by (simp add: gap_free_def revision_numbers_status)
next
  case (reach_revision db now rid0 draft fb n db')
  have "db' = snd (add_revision db now rid0 draft fb)" using reach_revision.hyps(2) by simp
  then show ?case using gap_free_add [OF reach_revision.IH] by simp
qed

lemma find_update:
  assumes "\<And>r. request_id (f r) = request_id r"
  shows "find (\<lambda>r. request_id r = rid) (map (\<lambda>r. if request_id r = rid then f r else r) rows)
           = map_option f (find (\<lambda>r. request_id r = rid) rows)"
  using assms by (induction rows) auto

lemma count_found:
  "find (\<lambda>r. request_id r = rid) rows = Some r \<Longrightarrow>
     0 < length (filter (\<lambda>r. request_id r = rid) rows)"
  by (induction rows) (auto split: if_splits)

lemma approve_effect:
  assumes "get_request db rid = Some r"
  shows "update_request_status db now rid ''approved'' key =
           (True, db \<lparr> requests := map (\<lambda>r. if request_id r = rid
                 then r \<lparr> status := ''approved'', updated_at := now, approved_at := Some now \<rparr>
                 else r) (requests db) \<rparr>)"
  using count_found [of rid "requests db" r] assms
  by (simp add: update_request_status_def update_where_def get_request_def)

text \<open>
  C2 (as the code has it).  Neither \<open>update_request_status\<close> nor \<open>add_revision\<close>
  looks at the current status.  On a request that is \<open>cancelled\<close>, approving returns
  True, sets the status to \<open>approved\<close> and stamps \<open>approved_at\<close>; \<open>add_revision\<close>
  appends a revision numbered one more than the largest stored number, overwrites the
  draft and sets the status to \<open>pending\<close>.
\<close>

theorem terminal_state_not_guarded:
  assumes "get_request db rid = Some r" and "status r = ''cancelled''"
  shows "fst (update_request_status db now rid ''approved'' key)
       \<and> map_option status
            (get_request (snd (update_request_status db now rid ''approved'' key)) rid)
            = Some ''approved''
       \<and> map_option approved_at
            (get_request (snd (update_request_status db now rid ''approved'' key)) rid)
            = Some (Some now)
       \<and> revisions (snd (add_revision db now rid draft fb)) =
            revisions db @ [\<lparr> r_request_id = rid, revision_number = max_rev db rid + 1,
                               r_draft_content = draft, feedback = fb, r_created_at = now \<rparr>]
       \<and> map_option status (get_request (snd (add_revision db now rid draft fb)) rid)
            = Some ''pending''
       \<and> map_option draft_content (get_request (snd (add_revision db now rid draft fb)) rid)
            = Some draft"
proof -
  have a: "get_request (snd (update_request_status db now rid ''approved'' key)) rid
             = Some (r \<lparr> status := ''approved'', updated_at := now, approved_at := Some now \<rparr>)"
    using assms(1) by (simp add: approve_effect [OF assms(1)] get_request_def find_update)
  have b: "get_request (snd (add_revision db now rid draft fb)) rid
             = Some (r \<lparr> draft_content := draft, status := ''pending'', updated_at := now \<rparr>)"
    using assms(1)
    by (simp add: add_revision_def update_where_def Let_def get_request_def find_update)
  have c: "revisions (snd (add_revision db now rid draft fb)) =
            revisions db @ [\<lparr> r_request_id = rid, revision_number = max_rev db rid + 1,
                               r_draft_content = draft, feedback = fb, r_created_at = now \<rparr>]"
    by (simp add: add_revision_def update_where_def Let_def)
  show ?thesis using a b c by (simp add: approve_effect [OF assms(1)])
qed

lemma db_created_eq:
  "db_created = \<lparr> requests = [\<lparr> request_id = ''u1'', source = ''jira'', source_id = ''ECD-1'',
        request_type = ''bug'', user_id = ''acc'', user_name = ''Ann'',
        original_context = ''please create a bug'', draft_content = ''# Bug draft'',
        status = ''pending'', jira_ticket_key = None, created_at = 10, updated_at = 10,
        approved_at = None, created_ticket_at = None \<rparr>],
      revisions = [\<lparr> r_request_id = ''u1'', revision_number = 1,
        r_draft_content = ''# Bug draft'', feedback = None, r_created_at = 10 \<rparr>] \<rparr>"
  by (simp add: db_created_def create_request_def empty_db_def)

lemma db_cancelled_eq:
  "db_cancelled = \<lparr> requests = [\<lparr> request_id = ''u1'', source = ''jira'', source_id = ''ECD-1'',
        request_type = ''bug'', user_id = ''acc'', user_name = ''Ann'',
        original_context = ''please create a bug'', draft_content = ''# Bug draft'',
        status = ''cancelled'', jira_ticket_key = None, created_at = 10, updated_at = 20,
        approved_at = None, created_ticket_at = None \<rparr>],
      revisions = [\<lparr> r_request_id = ''u1'', revision_number = 1,
        r_draft_content = ''# Bug draft'', feedback = None, r_created_at = 10 \<rparr>] \<rparr>"
  by (simp add: db_cancelled_def db_created_eq update_request_status_def update_where_def)

theorem terminal_state_not_guarded_witness:
  "map_option status (get_request db_cancelled ''u1'') = Some ''cancelled''
   \<and> fst (update_request_status db_cancelled 30 ''u1'' ''approved'' None)
   \<and> map_option status
        (get_request (snd (update_request_status db_cancelled 30 ''u1'' ''approved'' None)) ''u1'')
        = Some ''approved''
   \<and> map_option status (get_request (snd (add_revision db_cancelled 30 ''u1'' ''d'' None)) ''u1'')
        = Some ''pending''"
proof -
  obtain r where g: "get_request db_cancelled ''u1'' = Some r" and s: "status r = ''cancelled''"
    by (simp add: db_cancelled_eq get_request_def)
  show ?thesis
    using terminal_state_not_guarded [OF g s, of 30 None "''d''" None] g s by simp
qed

text \<open>
  The claim as written (approving or revising a cancelled request is rejected and changes
  nothing) fails: the cancelled request becomes \<open>approved\<close>, and a revision 2 is stored
  for it while its status goes back to \<open>pending\<close>.
\<close>

theorem terminal_state_counterexample:
  "map_option status (get_request db_cancelled ''u1'') = Some ''cancelled''
   \<and> update_request_status db_cancelled 30 ''u1'' ''approved'' None
       = (True, \<lparr> requests = [\<lparr> request_id = ''u1'', source = ''jira'', source_id = ''ECD-1'',
        request_type = ''bug'', user_id = ''acc'', user_name = ''Ann'',
        original_context = ''please create a bug'', draft_content = ''# Bug draft'',
        status = ''approved'', jira_ticket_key = None, created_at = 10, updated_at = 30,
        approved_at = Some 30, created_ticket_at = None \<rparr>],
      revisions = revisions db_cancelled \<rparr>)
   \<and> fst (add_revision db_cancelled 30 ''u1'' ''# Bug draft 2'' (Some ''shorter'')) = 2
   \<and> length (revisions (snd (add_revision db_cancelled 30 ''u1'' ''# Bug draft 2''
          (Some ''shorter''))))
       = length (revisions db_cancelled) + 1
   \<and> map_option status (get_request
        (snd (add_revision db_cancelled 30 ''u1'' ''# Bug draft 2'' (Some ''shorter''))) ''u1'')
       = Some ''pending''"
  by (simp add: db_cancelled_eq update_request_status_def update_where_def get_request_def
        add_revision_def max_rev_def sql_max_def revision_numbers_def Let_def)

lemma reachable_db_created: "reachable db_created"
proof -
  have "create_request empty_db ''u1'' 10 ''jira'' ''ECD-1'' ''bug'' ''acc'' ''Ann''
             ''please create a bug'' ''# Bug draft'' = Inr (''u1'', db_created)"
    by (simp add: db_created_eq) (simp add: create_request_def empty_db_def)
  moreover have "''u1'' \<notin> r_request_id ` set (revisions empty_db)" by (simp add: empty_db_def)
  ultimately show ?thesis using reach_create [OF reach_empty] by blast
qed

lemma reachable_db_two_revisions: "reachable db_two_revisions"
  using reach_revision [OF reachable_db_created,
      of 20 "''u1''" "''# Bug draft 2''" "Some ''shorter''"
         "fst (add_revision db_created 20 ''u1'' ''# Bug draft 2'' (Some ''shorter''))"
         db_two_revisions]
  by (simp add: db_two_revisions_def)

text \<open>
  C3.  In every state the store reaches, the revision numbers of a request, in insertion
  order, are exactly 1, 2, ..., n.  \<open>add_revision\<close> returns and stores n + 1, that is the
  largest stored number plus one, and \<open>create_request\<close> stores revision 1 for its new id.
\<close>

theorem revisions_gap_free:
  assumes "reachable db"
  shows "revision_numbers db rid = [1..int (length (revision_numbers db rid))]
       \<and> fst (add_revision db now rid draft fb) = int (length (revision_numbers db rid)) + 1
       \<and> revision_numbers (snd (add_revision db now rid draft fb)) rid
            = revision_numbers db rid @ [int (length (revision_numbers db rid)) + 1]
       \<and> (\<forall>uuid src src_id rtype uid uname ctx d r db'.
             uuid \<notin> r_request_id ` set (revisions db) \<and>
             create_request db uuid now src src_id rtype uid uname ctx d = Inr (r, db')
             \<longrightarrow> revision_numbers db' uuid = [1])"
proof -
  have g: "gap_free db rid" using assms by (rule reachable_gap_free)
  have m: "max_rev db rid = int (length (revision_numbers db rid))"
    using max_rev_gap_free [OF g] .
  have 1: "revision_numbers db rid = [1..int (length (revision_numbers db rid))]"
    using g by (simp add: gap_free_def)
  have 2: "fst (add_revision db now rid draft fb) = int (length (revision_numbers db rid)) + 1"
    by (simp add: add_revision_def Let_def m split: prod.split)
  have 3: "revision_numbers (snd (add_revision db now rid draft fb)) rid
            = revision_numbers db rid @ [int (length (revision_numbers db rid)) + 1]"
    by (simp add: revision_numbers_add m)
  have 4: "\<forall>uuid src src_id rtype uid uname ctx d r db'.
             uuid \<notin> r_request_id ` set (revisions db) \<and>
             create_request db uuid now src src_id rtype uid uname ctx d = Inr (r, db')
             \<longrightarrow> revision_numbers db' uuid = [1]"
    using revision_numbers_create revision_numbers_none by fastforce
  show ?thesis using 1 2 3 4 by blast
qed

theorem revisions_gap_free_witness:
  "reachable db_two_revisions
   \<and> revision_numbers db_two_revisions ''u1'' = [1, 2]
   \<and> fst (add_revision db_two_revisions 30 ''u1'' ''# Bug draft 3'' None) = 3
   \<and> revision_numbers (snd (add_revision db_two_revisions 30 ''u1'' ''# Bug draft 3'' None)) ''u1''
        = [1, 2, 3]"
proof -
  have n: "revision_numbers db_two_revisions ''u1'' = [1, 2]"
    by (simp add: db_two_revisions_def db_created_eq add_revision_def update_where_def Let_def
          revision_numbers_def max_rev_def sql_max_def)
  show ?thesis
    using revisions_gap_free
            [OF reachable_db_two_revisions, of "''u1''" 30 "''# Bug draft 3''" None]
      reachable_db_two_revisions n by simp
qed

section \<open>Theorems: dedup ledger\<close>

lemma find_not_None: "(find P xs \<noteq> None) = (\<exists>x \<in> set xs. P x)"
  by (induction xs) auto

lemma one_row_per_key:
  "distinct (map f xs) \<Longrightarrow> k \<in> f ` set xs \<Longrightarrow> length (filter (\<lambda>r. f r = k) xs) = 1"
proof (induction xs)
  case Nil then show ?case by simp
next
  case (Cons x xs)
  show ?case
  proof (cases "f x = k")
    case True
    then have "k \<notin> f ` set xs" using Cons.prems(1) by auto
    then have "filter (\<lambda>r. f r = k) xs = []" by (auto simp add: filter_empty_conv)
    then show ?thesis using True by simp
  next
    case False
    then show ?thesis using Cons by auto
  qed
qed

lemma jira_is_processed_iff:
  "jira_is_processed db k c = ((k, c) \<in> pm_key ` set (processed_mentions db))"
  unfolding jira_is_processed_def find_not_None by (auto simp add: pm_key_def image_iff)

lemma jira_mark_processed_total:
  "jira_mark_processed db now k c =
     Inr (if (k, c) \<in> pm_key ` set (processed_mentions db) then db
          else db \<lparr> processed_mentions := processed_mentions db @
                  [\<lparr> pm_issue_key = k, pm_comment_id = c, pm_processed_at = now \<rparr>] \<rparr>)"
  by (simp add: jira_mark_processed_def sql_insert_def pm_key_def)

lemma slack_is_processed_iff:
  "slack_is_processed db ts = (ts \<in> p_ts ` set (processed_messages db))"
  unfolding slack_is_processed_def find_not_None by (auto simp add: image_iff)

lemma slack_mark_processed_total:
  "slack_mark_processed env db ts response =
     Inr (db \<lparr> processed_messages :=
                 filter (\<lambda>r. p_ts r \<noteq> ts) (processed_messages db) @
                 [\<lparr> p_ts = ts, p_channel = Some (target_channel env), p_user_id = None,
                    p_text = None, p_response = Some (take 1000 response),
                    p_processed_at = clock env \<rparr>] \<rparr>)"
proof -
  have "ts \<notin> p_ts ` set (processed_messages db) \<Longrightarrow>
          filter (\<lambda>r. p_ts r \<noteq> ts) (processed_messages db) = processed_messages db"
    by (induction "processed_messages db") (auto simp add: filter_id_conv)
  then show ?thesis by (auto simp add: slack_mark_processed_def sql_insert_def)
qed

text \<open>
  C6.  On the issue-tracker ledger (whose rows have distinct keys, the primary key of the
  table), the first \<open>mark_processed\<close> succeeds and makes \<open>is_processed\<close> true, and a
  second one with the same key succeeds and leaves the database as it is, with exactly
  one row for the key.  On the chat ledger the first call succeeds and makes
  \<open>is_processed\<close> true, and a second one with the same key (whatever response and clock)
  succeeds, leaves exactly one row for the key and leaves the answer of \<open>is_processed\<close>
  for every key as it was.
\<close>

theorem mark_processed_twice:
  assumes "distinct (map pm_key (processed_mentions jdb))"
  shows "(\<exists>db1. jira_mark_processed jdb t1 k c = Inr db1
            \<and> jira_is_processed db1 k c
            \<and> jira_mark_processed db1 t2 k c = Inr db1
            \<and> length (filter (\<lambda>r. pm_key r = (k, c)) (processed_mentions db1)) = 1)
       \<and> (\<exists>db1 db2. slack_mark_processed env sdb ts r1 = Inr db1
            \<and> slack_is_processed db1 ts
            \<and> slack_mark_processed env' db1 ts r2 = Inr db2
            \<and> length (filter (\<lambda>r. p_ts r = ts) (processed_messages db2)) = 1
            \<and> (\<forall>ts'. slack_is_processed db2 ts' = slack_is_processed db1 ts'))"
proof -
  define j1 where "j1 = (if (k, c) \<in> pm_key ` set (processed_mentions jdb) then jdb
          else jdb \<lparr> processed_mentions := processed_mentions jdb @
                  [\<lparr> pm_issue_key = k, pm_comment_id = c, pm_processed_at = t1 \<rparr>] \<rparr>)"
  have a: "jira_mark_processed jdb t1 k c = Inr j1"
    by (simp add: jira_mark_processed_total j1_def)
  have m: "(k, c) \<in> pm_key ` set (processed_mentions j1)"
    by (simp add: j1_def pm_key_def)
  have d: "distinct (map pm_key (processed_mentions j1))"
    using assms by (auto simp add: j1_def pm_key_def)
  have b: "jira_mark_processed j1 t2 k c = Inr j1"
    using m by (simp add: jira_mark_processed_total)
  have jira: "\<exists>db1. jira_mark_processed jdb t1 k c = Inr db1
            \<and> jira_is_processed db1 k c
            \<and> jira_mark_processed db1 t2 k c = Inr db1
            \<and> length (filter (\<lambda>r. pm_key r = (k, c)) (processed_mentions db1)) = 1"
    using a b m one_row_per_key [OF d m] by (auto simp add: jira_is_processed_iff)
  define s1 where "s1 = sdb \<lparr> processed_messages :=
                 filter (\<lambda>r. p_ts r \<noteq> ts) (processed_messages sdb) @
                 [\<lparr> p_ts = ts, p_channel = Some (target_channel env), p_user_id = None,
                    p_text = None, p_response = Some (take 1000 r1),
                    p_processed_at = clock env \<rparr>] \<rparr>"
  define s2 where "s2 = s1 \<lparr> processed_messages :=
                 filter (\<lambda>r. p_ts r \<noteq> ts) (processed_messages s1) @
                 [\<lparr> p_ts = ts, p_channel = Some (target_channel env'), p_user_id = None,
                    p_text = None, p_response = Some (take 1000 r2),
                    p_processed_at = clock env' \<rparr>] \<rparr>"
  have c1: "slack_mark_processed env sdb ts r1 = Inr s1"
    by (simp add: slack_mark_processed_total s1_def)
  have c2: "slack_mark_processed env' s1 ts r2 = Inr s2"
    by (simp add: slack_mark_processed_total s2_def)
  have p1: "slack_is_processed s1 ts" by (simp add: slack_is_processed_iff s1_def)
  have n: "length (filter (\<lambda>r. p_ts r = ts) (processed_messages s2)) = 1"
    by (simp add: s2_def s1_def filter_empty_conv)
  have same: "\<forall>ts'. slack_is_processed s2 ts' = slack_is_processed s1 ts'"
    by (auto simp add: slack_is_processed_iff s2_def s1_def image_iff)
  have slack: "\<exists>db1 db2. slack_mark_processed env sdb ts r1 = Inr db1
            \<and> slack_is_processed db1 ts
            \<and> slack_mark_processed env' db1 ts r2 = Inr db2
            \<and> length (filter (\<lambda>r. p_ts r = ts) (processed_messages db2)) = 1
            \<and> (\<forall>ts'. slack_is_processed db2 ts' = slack_is_processed db1 ts')"
    using c1 c2 p1 n same by blast
  show ?thesis using jira slack by blast
qed

theorem mark_processed_twice_witness:
  "distinct (map pm_key (processed_mentions empty_jira_db))
   \<and> (\<exists>db1. jira_mark_processed empty_jira_db 1 ''ECD-1'' ''10'' = Inr db1
            \<and> jira_is_processed db1 ''ECD-1'' ''10''
            \<and> jira_mark_processed db1 2 ''ECD-1'' ''10'' = Inr db1)
   \<and> (\<exists>db1 db2. slack_mark_processed slack_env0 empty_slack_db ''1700000000.000100'' ''ok'' = Inr db1
            \<and> slack_is_processed db1 ''1700000000.000100''
            \<and> slack_mark_processed slack_env0 db1 ''1700000000.000100'' ''again'' = Inr db2
            \<and> length (filter (\<lambda>r. p_ts r = ''1700000000.000100'') (processed_messages db2)) = 1)"
proof -
  have d: "distinct (map pm_key (processed_mentions empty_jira_db))"
    by (simp add: empty_jira_db_def)
  show ?thesis
    using mark_processed_twice
            [OF d, of 1 "''ECD-1''" "''10''" 2 slack_env0 empty_slack_db
               "''1700000000.000100''" "''ok''" slack_env0 "''again''"] d
    by blast
qed

section \<open>Theorems: connectors\<close>












lemma replace_thread_processed [simp]:
  "processed_messages (replace_thread env db t c l) = processed_messages db"
  by (simp add: replace_thread_def sql_insert_def)

lemma slack_is_processed_cong:
  "processed_messages db' = processed_messages db \<Longrightarrow>
     slack_is_processed db' ts = slack_is_processed db ts"
  by (simp add: slack_is_processed_def)

















section \<open>Theorems: generic handler\<close>

text \<open>
  C9.  Whatever the event, the context and the reasoning service, \<open>process_with_claude\<close>
  raises NameError for \<open>channel_name\<close> while it builds the prompt: it makes no call of
  the reasoning service and returns no text.  The generic branch of the polling loop
  therefore posts nothing and leaves the database as it is.
\<close>

theorem process_with_claude_name_error:
  "process_with_claude run time_text event full_context = Inl (NameError ''channel_name'')
   \<and> generic_branch env run send time_text db event context = (db, [])"
proof -
  have "\<And>fc. process_with_claude run time_text event fc = Inl (NameError ''channel_name'')"
    by (simp add: process_with_claude_def build_prompt_def load_name_def
          slack_monitor_globals_def python_builtins_def Let_def)
  then show ?thesis by (simp add: generic_branch_def)
qed

section \<open>Theorems: approval-response parser\<close>

lemma code_lower_char:
  "code (lower_char c) = (if is_upper c then code c + 32 else code c)"
  by (simp add: lower_char_def is_upper_def code_def)

lemma is_word_lower_char [simp]: "is_word (lower_char c) = is_word c"
  by (auto simp add: is_word_def code_lower_char is_upper_def)

lemma is_space_lower_char [simp]: "is_space (lower_char c) = is_space c"
  by (auto simp add: is_space_def code_lower_char is_upper_def)

lemma is_upper_lower_char [simp]: "\<not> is_upper (lower_char c)"
proof (cases "is_upper c")
  case True
  then have "code (lower_char c) = code c + 32" by (simp add: code_lower_char)
  then show ?thesis using True by (auto simp add: is_upper_def)
next
  case False
  then show ?thesis by (simp add: lower_char_def)
qed

lemma lower_char_idem [simp]: "lower_char (lower_char c) = lower_char c"
  using is_upper_lower_char [of c] by (simp add: lower_char_def [of "lower_char c"])

lemma is_word_not_space: "is_word c \<Longrightarrow> \<not> is_space c"
  by (auto simp add: is_word_def is_space_def)

lemma sym_word_lower [simp]: "sym_word (sym_lower x) = sym_word x"
  by (cases x) simp_all

lemma sym_space_lower [simp]: "sym_space (sym_lower x) = sym_space x"
  by (cases x) simp_all

lemma sym_lower_idem [simp]: "sym_lower (sym_lower x) = sym_lower x"
  by (cases x) simp_all

lemma sym_word_not_space: "sym_word x \<Longrightarrow> \<not> sym_space x"
  by (cases x) (simp_all add: is_word_not_space)

lemma text_lower_append [simp]: "text_lower (xs @ ys) = text_lower xs @ text_lower ys"
  by (simp add: text_lower_def)

lemma text_lower_Nil [simp]: "text_lower [] = []"
  by (simp add: text_lower_def)

lemma text_lower_Nil_iff [simp]: "(text_lower xs = []) = (xs = [])"
  by (simp add: text_lower_def)

lemma text_lower_idem [simp]: "text_lower (text_lower xs) = text_lower xs"
  by (simp add: text_lower_def)




lemma text_lstrip_keep:
  assumes "w \<noteq> []" and "\<not> sym_space (hd w)"
  shows "text_lstrip (pre @ w @ post) = dropWhile sym_space pre @ w @ post"
proof -
  have "dropWhile sym_space (w @ post) = w @ post"
    using assms by (cases w) auto
  then show ?thesis by (simp add: text_lstrip_def dropWhile_append)
qed

lemma text_rstrip_keep:
  assumes "w \<noteq> []" and "\<not> sym_space (last w)"
  shows "text_rstrip (pre @ w @ post) = pre @ w @ rev (dropWhile sym_space (rev post))"
proof -
  have "dropWhile sym_space (rev w @ rev pre) = rev w @ rev pre"
    using assms by (cases "rev w") (auto simp add: last_rev [symmetric])
  then show ?thesis by (simp add: text_rstrip_def dropWhile_append)
qed

lemma text_strip_keep:
  assumes "w \<noteq> []" and "\<not> sym_space (hd w)" and "\<not> sym_space (last w)"
  shows "text_strip (pre @ w @ post)
           = dropWhile sym_space pre @ w @ rev (dropWhile sym_space (rev post))"
  using assms by (simp add: text_strip_def text_lstrip_keep text_rstrip_keep)

lemma last_dropWhile:
  "dropWhile P xs \<noteq> [] \<Longrightarrow> last (dropWhile P xs) = last xs"
  by (induction xs) (auto split: if_splits)

lemma hd_rstripped:
  "rev (dropWhile P (rev xs)) \<noteq> [] \<Longrightarrow> hd (rev (dropWhile P (rev xs))) = hd xs"
  using last_dropWhile [of P "rev xs"] by (simp add: hd_rev last_rev)

lemma whole_word_in_strip:
  assumes "whole_word_in w s" and "w \<noteq> []" and "sym_word (hd w)" and "sym_word (last w)"
  shows "whole_word_in w (text_strip s)"
proof -
  obtain pre post where t: "s = pre @ w @ post"
    and b1: "pre = [] \<or> \<not> sym_word (last pre)" and b2: "post = [] \<or> \<not> sym_word (hd post)"
    using assms(1) by (auto simp add: whole_word_in_def)
  have ns: "\<not> sym_space (hd w)" "\<not> sym_space (last w)"
    using assms(3,4) by (simp_all add: sym_word_not_space)
  define pre' where "pre' = dropWhile sym_space pre"
  define post' where "post' = rev (dropWhile sym_space (rev post))"
  have s: "text_strip s = pre' @ w @ post'"
    using text_strip_keep [OF assms(2) ns, of pre post] by (simp add: t pre'_def post'_def)
  have c1: "pre' = [] \<or> \<not> sym_word (last pre')"
  proof (cases "pre' = []")
    case True then show ?thesis by simp
  next
    case False
    then have "pre \<noteq> []" by (auto simp add: pre'_def)
    moreover have "last pre' = last pre"
      using False last_dropWhile [of sym_space pre] by (simp add: pre'_def)
    ultimately show ?thesis using b1 by simp
  qed
  have c2: "post' = [] \<or> \<not> sym_word (hd post')"
  proof (cases "post' = []")
    case True then show ?thesis by simp
  next
    case False
    then have "post \<noteq> []" by (auto simp add: post'_def)
    moreover have "hd post' = hd post"
      using False hd_rstripped [of sym_space post] by (simp add: post'_def)
    ultimately show ?thesis using b2 by simp
  qed
  show ?thesis using s c1 c2 by (auto simp add: whole_word_in_def)
qed

lemma rx_match_lits:
  "rx_match ic da (lits w @ p) prev (w @ s)
     = rx_match ic da p (if w = [] then prev else Some (last w)) s"
proof (induction w arbitrary: prev)
  case Nil then show ?case by (simp add: lits_def)
next
  case (Cons c w)
  have "rx_match ic da (lits (c # w) @ p) prev ((c # w) @ s)
          = rx_match ic da (lits w @ p) (Some c) (w @ s)"
    by (simp add: lits_def char_eq_def)
  then show ?case using Cons [of "Some c"] by simp
qed

lemma rx_search_from_found:
  "rx_match ic da p (if pre = [] then prev else Some (last pre)) s \<noteq> None
     \<Longrightarrow> rx_search_from ic da p prev (pre @ s) \<noteq> None"
proof (induction pre arbitrary: prev)
  case Nil
  then show ?case by (cases s) (auto split: option.split)
next
  case (Cons a pre)
  have "rx_match ic da p (if pre = [] then Some a else Some (last pre)) s \<noteq> None"
    using Cons.prems by (simp split: if_splits)
  from Cons.IH [OF this] show ?case by (simp split: option.split)
qed

lemma first_match_found:
  "pattern \<in> set patterns \<Longrightarrow> rx_search ic da pattern s \<noteq> None
     \<Longrightarrow> first_match ic da patterns s \<noteq> None"
  by (induction patterns) (auto split: option.split)

lemma word_pattern_found:
  assumes "whole_word_in w s" and "w \<noteq> []" and "sym_word (hd w)" and "sym_word (last w)"
  shows "rx_search False False (WordB # lits w @ [WordB]) s \<noteq> None"
proof -
  obtain pre post where t: "s = pre @ w @ post"
    and b1: "pre = [] \<or> \<not> sym_word (last pre)" and b2: "post = [] \<or> \<not> sym_word (hd post)"
    using assms(1) by (auto simp add: whole_word_in_def)
  define pv where "pv = (if pre = [] then None else Some (last pre))"
  have wb1: "word_boundary pv (w @ post)"
    using b1 assms(2,3) by (cases w) (auto simp add: word_boundary_def pv_def)
  have wb2: "word_boundary (Some (last w)) post"
    using b2 assms(4) by (cases post) (auto simp add: word_boundary_def)
  have "rx_match False False (WordB # lits w @ [WordB]) pv (w @ post) = Some None"
    using wb1 wb2 assms(2) by (simp add: rx_match_lits)
  then have "rx_search_from False False (WordB # lits w @ [WordB]) None (pre @ w @ post) \<noteq> None"
    using rx_search_from_found [of False False "WordB # lits w @ [WordB]" pre None "w @ post"]
    by (simp add: pv_def)
  then show ?thesis by (simp add: rx_search_def t)
qed

lemma approved_split: "plain ''approved'' = plain ''approve'' @ [Ch (CHR ''d'')]"
  by (simp add: plain_def)

lemma approved_pattern_found:
  assumes "whole_word_in (plain ''approved'') s"
  shows "rx_search False False (WordB # lits (plain ''approve'') @ [Opt (Ch (CHR ''d'')), WordB]) s
           \<noteq> None"
proof -
  obtain pre post where t: "s = pre @ plain ''approve'' @ Ch (CHR ''d'') # post"
    and b1: "pre = [] \<or> \<not> sym_word (last pre)" and b2: "post = [] \<or> \<not> sym_word (hd post)"
    using assms(1) by (auto simp add: whole_word_in_def approved_split)
  define pv where "pv = (if pre = [] then None else Some (last pre))"
  have a: "sym_word (Ch (CHR ''a''))" "sym_word (Ch (CHR ''d''))"
    by (simp_all add: is_word_def code_def)
  have h: "plain ''approve'' @ Ch (CHR ''d'') # post
             = Ch (CHR ''a'') # plain ''pprove'' @ Ch (CHR ''d'') # post"
    by (simp add: plain_def)
  have wb1: "word_boundary pv (plain ''approve'' @ Ch (CHR ''d'') # post)"
    unfolding h using b1 a by (auto simp add: word_boundary_def pv_def)
  have wb2: "word_boundary (Some (Ch (CHR ''d''))) post"
    using b2 a by (cases post) (auto simp add: word_boundary_def)
  have ne: "plain ''approve'' \<noteq> []" by (simp add: plain_def)
  have "rx_match False False (lits (plain ''approve'') @ [Opt (Ch (CHR ''d'')), WordB]) pv
          (plain ''approve'' @ Ch (CHR ''d'') # post) = Some None"
    using wb2 ne by (simp only: rx_match_lits) (simp add: char_eq_def)
  then have "rx_match False False (WordB # lits (plain ''approve'') @ [Opt (Ch (CHR ''d'')), WordB])
          pv (plain ''approve'' @ Ch (CHR ''d'') # post) = Some None"
    using wb1 by simp
  then have "rx_search_from False False
               (WordB # lits (plain ''approve'') @ [Opt (Ch (CHR ''d'')), WordB])
               None (pre @ plain ''approve'' @ Ch (CHR ''d'') # post) \<noteq> None"
    using rx_search_from_found
            [of False False "WordB # lits (plain ''approve'') @ [Opt (Ch (CHR ''d'')), WordB]"
                pre None "plain ''approve'' @ Ch (CHR ''d'') # post"]
    by (simp add: pv_def)
  then show ?thesis by (simp add: rx_search_def t)
qed

lemma in_dropWhile: "x \<in> set xs \<Longrightarrow> \<not> P x \<Longrightarrow> x \<in> set (dropWhile P xs)"
  by (induction xs) auto

lemma in_text_strip: "x \<in> set s \<Longrightarrow> \<not> sym_space x \<Longrightarrow> x \<in> set (text_strip s)"
proof -
  assume x: "x \<in> set s" and n: "\<not> sym_space x"
  have "x \<in> set (rev (dropWhile sym_space s))"
    using in_dropWhile [of x s sym_space] x n by simp
  then have "x \<in> set (dropWhile sym_space (rev (dropWhile sym_space s)))"
    using in_dropWhile [of x "rev (dropWhile sym_space s)" sym_space] n by simp
  then show ?thesis
    by (simp add: text_strip_def text_lstrip_def text_rstrip_def)
qed

lemma check_mark_found:
  assumes "CheckMark \<in> set text"
  shows "rx_search False False [Lit CheckMark] (text_strip (text_lower text)) \<noteq> None"
proof -
  have "sym_lower CheckMark \<in> set (text_lower text)"
    using assms unfolding text_lower_def by (simp only: set_map) (rule imageI)
  then have "CheckMark \<in> set (text_strip (text_lower text))"
    using in_text_strip [of CheckMark "text_lower text"] by simp
  then obtain pre post where s: "text_strip (text_lower text) = pre @ CheckMark # post"
    by (auto dest: split_list)
  have "rx_match False False [Lit CheckMark]
          (if pre = [] then None else Some (last pre)) (CheckMark # post) \<noteq> None"
    by (simp add: char_eq_def)
  then show ?thesis
    using rx_search_from_found [of False False "[Lit CheckMark]" pre None "CheckMark # post"]
    by (simp add: rx_search_def s)
qed

lemma approval_word_facts:
  assumes "w \<in> set approval_words"
  shows "w \<noteq> []" and "sym_word (hd w)" and "sym_word (last w)"
proof -
  have w: "w = plain ''approve'' \<or> w = plain ''approved'' \<or> w = plain ''looks good''
           \<or> w = plain ''go ahead''"
    using assms by (simp add: approval_words_def)
  show "w \<noteq> []" using w by (auto simp add: plain_def)
  show "sym_word (hd w)" using w by (auto simp add: plain_def is_word_def code_def)
  show "sym_word (last w)" using w by (auto simp add: plain_def is_word_def code_def)
qed

lemma approval_found:
  assumes "w \<in> set approval_words" and "whole_word_in w s"
  shows "first_match False False approval_patterns s \<noteq> None"
proof (cases "w = plain ''approved''")
  case True
  have "WordB # lits (plain ''approve'') @ [Opt (Ch (CHR ''d'')), WordB] \<in> set approval_patterns"
    by (simp add: approval_patterns_def)
  then show ?thesis
    using first_match_found approved_pattern_found assms(2) True by blast
next
  case False
  then have "WordB # lits w @ [WordB] \<in> set approval_patterns"
    using assms(1) by (auto simp add: approval_patterns_def approval_words_def)
  moreover have "rx_search False False (WordB # lits w @ [WordB]) s \<noteq> None"
    using word_pattern_found [OF assms(2)] approval_word_facts [OF assms(1)] by simp
  ultimately show ?thesis using first_match_found by blast
qed

text \<open>
  C10.  A text whose lower-cased form holds \<open>approve\<close>, \<open>approved\<close>, \<open>looks good\<close> or
  \<open>go ahead\<close> as a whole word, or which holds a check mark anywhere, is classified as
  approved with no feedback, whatever else it holds (a change keyword at its start, a
  negation): the approval patterns are tried first.
\<close>

theorem approval_takes_precedence:
  assumes "(\<exists>w \<in> set approval_words. whole_word_in w (text_lower text))
           \<or> CheckMark \<in> set text"
  shows "parse_approval_response text
           = \<lparr> response_type = Some ''approved'', feedback_text = None, confidence = 9 / 10 \<rparr>"
proof -
  have "first_match False False approval_patterns (text_strip (text_lower text)) \<noteq> None"
    using assms
  proof
    assume "\<exists>w \<in> set approval_words. whole_word_in w (text_lower text)"
    then obtain w where w: "w \<in> set approval_words" "whole_word_in w (text_lower text)"
      by blast
    have "whole_word_in w (text_strip (text_lower text))"
      using whole_word_in_strip [OF w(2)] approval_word_facts [OF w(1)] by simp
    then show ?thesis using approval_found [OF w(1)] by simp
  next
    assume "CheckMark \<in> set text"
    from check_mark_found [OF this]
    have "rx_search False False [Lit CheckMark] (text_strip (text_lower text)) \<noteq> None" .
    moreover have "[Lit CheckMark] \<in> set approval_patterns"
      by (simp add: approval_patterns_def)
    ultimately show ?thesis using first_match_found by blast
  qed
  then show ?thesis by (auto simp add: parse_approval_response_def Let_def)
qed

theorem approval_takes_precedence_witness:
  "whole_word_in (plain ''approved'') (text_lower (plain ''not approved''))
   \<and> whole_word_in (plain ''looks good'') (text_lower (plain ''changes: this looks good''))
   \<and> whole_word_in (plain ''go ahead'') (text_lower (plain ''Cancel it. GO AHEAD!''))
   \<and> CheckMark \<in> set (plain ''revise: use '' @ [CheckMark])
   \<and> parse_approval_response (plain ''not approved'')
       = \<lparr> response_type = Some ''approved'', feedback_text = None, confidence = 9 / 10 \<rparr>
   \<and> parse_approval_response (plain ''changes: this looks good'')
       = \<lparr> response_type = Some ''approved'', feedback_text = None, confidence = 9 / 10 \<rparr>
   \<and> parse_approval_response (plain ''Cancel it. GO AHEAD!'')
       = \<lparr> response_type = Some ''approved'', feedback_text = None, confidence = 9 / 10 \<rparr>
   \<and> parse_approval_response (plain ''revise: use '' @ [CheckMark])
       = \<lparr> response_type = Some ''approved'', feedback_text = None, confidence = 9 / 10 \<rparr>"
proof -
  have l: "text_lower (plain ''not approved'') = plain ''not '' @ plain ''approved'' @ []"
          "text_lower (plain ''changes: this looks good'')
             = plain ''changes: this '' @ plain ''looks good'' @ []"
          "text_lower (plain ''Cancel it. GO AHEAD!'')
             = plain ''cancel it. '' @ plain ''go ahead'' @ plain ''!''"
    by code_simp+
  have a: "whole_word_in (plain ''approved'') (text_lower (plain ''not approved''))"
    unfolding whole_word_in_def l
    by (rule exI [of _ "plain ''not ''"], rule exI [of _ "[]"])
       (simp add: plain_def is_word_def code_def)
  have b: "whole_word_in (plain ''looks good'')
             (text_lower (plain ''changes: this looks good''))"
    unfolding whole_word_in_def l
    by (rule exI [of _ "plain ''changes: this ''"], rule exI [of _ "[]"])
       (simp add: plain_def is_word_def code_def)
  have c: "whole_word_in (plain ''go ahead'') (text_lower (plain ''Cancel it. GO AHEAD!''))"
    unfolding whole_word_in_def l
    by (rule exI [of _ "plain ''cancel it. ''"], rule exI [of _ "plain ''!''"])
       (simp add: plain_def is_word_def code_def)
  have d: "CheckMark \<in> set (plain ''revise: use '' @ [CheckMark])" by simp
  have wa: "plain ''approved'' \<in> set approval_words"
    and wb: "plain ''looks good'' \<in> set approval_words"
    and wc: "plain ''go ahead'' \<in> set approval_words"
    by (simp_all add: approval_words_def)
  show ?thesis
    using approval_takes_precedence [of "plain ''not approved''"]
          approval_takes_precedence [of "plain ''changes: this looks good''"]
          approval_takes_precedence [of "plain ''Cancel it. GO AHEAD!''"]
          approval_takes_precedence [of "plain ''revise: use '' @ [CheckMark]"]
          a b c d wa wb wc
    by blast
qed

lemma rx_match_any_star: "rx_match ic True [AnyStar] prev s = Some (Some s)"
  by (induction s arbitrary: prev) (simp_all add: dot_def)

lemma rx_match_any_plus: "rx_match ic True [AnyPlus] prev (x # xs) = Some (Some (x # xs))"
  by (simp add: dot_def rx_match_any_star)













end
